theory Spec2Isabelle
  imports Complex_Main "HOL-Library.Word" "HOL-Library.Sublist"
begin

section \<open>JavaScript values\<close>

text \<open>
  A JavaScript string is a sequence of UTF-16 code units. String literals of the source
  are written \<open>js ''...''\<close>.
\<close>

type_synonym jschar = "16 word"
type_synonym jsstring = "jschar list"

definition js :: "string \<Rightarrow> jsstring" where
  "js s = map of_char s"

text \<open>
  \<open>String.prototype.includes\<close>: the argument occurs as a contiguous run of code units.
\<close>

fun str_includes :: "'a list \<Rightarrow> 'a list \<Rightarrow> bool" where
  "str_includes [] t = (t = [])"
| "str_includes (c # s) t = (prefix t (c # s) \<or> str_includes s t)"

text \<open>The manifest marker, the literal \<^verbatim>\<open>'.m3u8'\<close> of the source.\<close>

definition dot_m3u8 :: jsstring where
  "dot_m3u8 = js ''.m3u8''"

text \<open>
  Numbers are IEEE doubles; the handler only ever asks whether one is truthy. A finite
  double is a rational (both zeros are \<open>Finite 0\<close>).
\<close>

datatype jsnum = Finite rat | Infinite bool | NaN

datatype jsval =
    JUndefined
  | JNull
  | JBool bool
  | JNum jsnum
  | JStr jsstring
  | JArr "jsval list"
  | JObj "(jsstring \<times> jsval) list"

text \<open>\<open>ToBoolean\<close>, as used by \<^verbatim>\<open>!targetUrl\<close>.\<close>

fun to_boolean :: "jsval \<Rightarrow> bool" where
  "to_boolean JUndefined = False"
| "to_boolean JNull = False"
| "to_boolean (JBool b) = b"
| "to_boolean (JNum (Finite r)) = (r \<noteq> 0)"
| "to_boolean (JNum (Infinite _)) = True"
| "to_boolean (JNum NaN) = False"
| "to_boolean (JStr s) = (s \<noteq> [])"
| "to_boolean (JArr _) = True"
| "to_boolean (JObj _) = True"

text \<open>Thrown values: every throw the code can meet is an error object with a message.\<close>

datatype error =
    TypeError (message: jsstring)
  | SyntaxError (message: jsstring)
  | Error (message: jsstring)

text \<open>
  \<^verbatim>\<open>v || d\<close> for a \<open>v\<close> that is a string, \<^verbatim>\<open>null\<close> or \<^verbatim>\<open>undefined\<close>: the empty string is
  falsy, too.
\<close>

definition or_else :: "jsstring option \<Rightarrow> jsstring \<Rightarrow> jsstring" where
  "or_else v d = (case v of None \<Rightarrow> d | Some s \<Rightarrow> if s = [] then d else s)"

text \<open>
  Reading a property of a value obtained from \<open>JSON.parse\<close> (\<^verbatim>\<open>body.url\<close>): \<^verbatim>\<open>null\<close> and
  \<^verbatim>\<open>undefined\<close> throw, an object yields its member or \<^verbatim>\<open>undefined\<close>, and the property
  names read here exist on no boolean, number, string or array.
\<close>

fun get_prop :: "jsval \<Rightarrow> jsstring \<Rightarrow> error + jsval" where
  "get_prop JUndefined k = Inl (TypeError (js ''Cannot read properties of undefined''))"
| "get_prop JNull k = Inl (TypeError (js ''Cannot read properties of null''))"
| "get_prop (JObj kvs) k = Inr (case map_of kvs k of None \<Rightarrow> JUndefined | Some v \<Rightarrow> v)"
| "get_prop _ k = Inr JUndefined"

text \<open>
  A JavaScript \<open>Set\<close> of strings keeps its members in insertion order and ignores the
  insertion of a member it has; \<open>Array.from\<close> lists it in that order. It is modelled by
  the list \<open>Array.from\<close> would give.
\<close>

definition Set_add :: "'a \<Rightarrow> 'a list \<Rightarrow> 'a list" where
  "Set_add x xs = (if x \<in> set xs then xs else xs @ [x])"

section \<open>The platform\<close>

text \<open>
  \<open>new URL(x)\<close> and \<open>JSON.parse\<close> belong to the runtime, not to this repository: they are
  parameters of the model. \<open>URL P x\<close> is \<open>Inl\<close> when the constructor throws, and the
  parsed URL otherwise; of a parsed URL the code reads \<open>pathname\<close> only.
\<close>

record url =
  pathname :: jsstring
  search :: jsstring

record platform =
  URL :: "jsval \<Rightarrow> error + url"
  JSON_parse :: "jsstring \<Rightarrow> error + jsval"

section \<open>Merge and filter\<close>

text \<open>
  The callback of the final \<open>filter\<close>:
  \<^verbatim>\<open>link => { try { const url = new URL(link); return url.pathname.includes('.m3u8'); }
            catch (e) { return false; } }\<close>
\<close>

definition keep_link :: "platform \<Rightarrow> jsstring \<Rightarrow> bool" where
  "keep_link P link =
     (case URL P (JStr link) of
        Inl e \<Rightarrow> False
      | Inr u \<Rightarrow> str_includes (pathname u) dot_m3u8)"

definition final_filter :: "platform \<Rightarrow> jsstring list \<Rightarrow> jsstring list" where
  "final_filter P links = filter (keep_link P) links"

section \<open>Traffic Observer\<close>

text \<open>
  The \<open>request\<close> hook, on the set \<open>m3u8Links\<close> and a request with its
  \<open>resourceType()\<close> and \<open>url()\<close>: the set after the hook, and what the hook does with
  the request.
  \<^verbatim>\<open>if (url.includes('.m3u8')) { m3u8Links.add(url); }
  if (['image', 'font', 'stylesheet'].includes(resourceType)) { request.abort(); }
  else { request.continue(); }\<close>
\<close>

datatype action = Abort | Continue

definition on_request :: "jsstring list \<Rightarrow> jsstring \<Rightarrow> jsstring \<Rightarrow> jsstring list \<times> action" where
  "on_request m3u8Links resourceType url =
     (if str_includes url dot_m3u8 then Set_add url m3u8Links else m3u8Links,
      if resourceType \<in> set [js ''image'', js ''font'', js ''stylesheet''] then Abort else Continue)"

text \<open>
  The \<open>response\<close> hook, on a response with its \<open>url()\<close> and the \<open>content-type\<close> member of
  its \<open>headers()\<close> (\<open>None\<close> when the header is absent).
\<close>

definition on_response :: "jsstring list \<Rightarrow> jsstring \<Rightarrow> jsstring option \<Rightarrow> jsstring list" where
  "on_response m3u8Links url header =
     (let contentType = or_else header []
      in if str_includes url dot_m3u8
            \<or> str_includes contentType (js ''application/vnd.apple.mpegurl'')
            \<or> str_includes contentType (js ''application/x-mpegurl'')
         then Set_add url m3u8Links else m3u8Links)"

text \<open>What the page does on the network while it is open, in the order the hooks see it.\<close>

datatype net_event =
    Request jsstring jsstring
  | Response jsstring "jsstring option"

fun observe :: "net_event list \<Rightarrow> jsstring list \<Rightarrow> jsstring list" where
  "observe [] m3u8Links = m3u8Links"
| "observe (Request resourceType url # es) m3u8Links =
     observe es (fst (on_request m3u8Links resourceType url))"
| "observe (Response url header # es) m3u8Links =
     observe es (on_response m3u8Links url header)"

section \<open>Regular expressions\<close>

text \<open>
  The fragment of the regular expressions of JavaScript that the source uses, matched as
  a backtracking matcher does: \<open>rx_match r s\<close> lists, in the order backtracking tries
  them, what is left of \<open>s\<close> after each way \<open>r\<close> can match at its start. Repetition and
  option are greedy. Under the flag \<open>i\<close> a literal matches the code units with its
  canonical (upper-case) form; no code unit outside ASCII has an ASCII canonical form.
\<close>

datatype rx =
    Eps
  | Chr jschar
  | NoneOf "jschar list"
  | Seq rx rx
  | Opt rx
  | Star rx

definition canonicalize :: "jschar \<Rightarrow> jschar" where
  "canonicalize c = (if 0x61 \<le> c \<and> c \<le> 0x7A then c - 0x20 else c)"

fun rx_match :: "rx \<Rightarrow> jsstring \<Rightarrow> jsstring list" where
  "rx_match Eps s = [s]"
| "rx_match (Chr p) s =
     (case s of [] \<Rightarrow> [] | c # t \<Rightarrow> if canonicalize c = canonicalize p then [t] else [])"
| "rx_match (NoneOf cs) s =
     (case s of [] \<Rightarrow> [] | c # t \<Rightarrow> if c \<in> set cs then [] else [t])"
| "rx_match (Seq a b) s = concat (map (rx_match b) (rx_match a s))"
| "rx_match (Opt a) s = rx_match a s @ [s]"
| "rx_match (Star a) s =
     concat (map (\<lambda>t. if length t < length s then rx_match (Star a) t else []) (rx_match a s))
     @ [s]"

text \<open>
  The equation of \<open>Star\<close> calls itself under a \<open>\<lambda>\<close>: it is unfolded by hand.
\<close>

declare rx_match.simps(6) [simp del]

definition Plus :: "rx \<Rightarrow> rx" where
  "Plus a = Seq a (Star a)"

fun lit :: "string \<Rightarrow> rx" where
  "lit [] = Eps"
| "lit (c # cs) = Seq (Chr (of_char c)) (lit cs)"

text \<open>
  \<open>String.prototype.match\<close> with a regular expression under the flag \<open>g\<close>: the matches
  from left to right, each search starting where the match before it ended (one code unit
  further after an empty match). The result \<^verbatim>\<open>null\<close> for no match is the empty list here:
  the source does nothing with it.
\<close>

function match_all :: "rx \<Rightarrow> jsstring \<Rightarrow> jsstring list" where
  "match_all r s =
     (case rx_match r s of
        [] \<Rightarrow> (case s of [] \<Rightarrow> [] | c # s' \<Rightarrow> match_all r s')
      | t # ts \<Rightarrow>
          (if length t < length s then take (length s - length t) s # match_all r t
           else [] # (case s of [] \<Rightarrow> [] | c # s' \<Rightarrow> match_all r s')))"
  by pat_completeness auto
termination
  by (relation "measure (\<lambda>(r, s). length s)") auto

declare match_all.simps [simp del]

text \<open>\<open>\s\<close>: the white space and line terminators of ECMAScript.\<close>

definition white_space :: "jschar list" where
  "white_space =
     [0x09, 0x0A, 0x0B, 0x0C, 0x0D, 0x20, 0xA0, 0x1680,
      0x2000, 0x2001, 0x2002, 0x2003, 0x2004, 0x2005, 0x2006, 0x2007, 0x2008, 0x2009, 0x200A,
      0x2028, 0x2029, 0x202F, 0x205F, 0x3000, 0xFEFF]"

text \<open>
  The class \<^verbatim>\<open>[^\s"'<>(){}[\]]\<close>: what it excludes besides \<open>\s\<close> are the quotes \<open>0x22\<close>
  and \<open>0x27\<close> and the brackets \<^verbatim>\<open><>(){}[]\<close>.
\<close>

definition delimiters :: "jschar list" where
  "delimiters = white_space @ [0x22, 0x27] @ js ''<>(){}[]''"

definition url_char :: rx where
  "url_char = NoneOf delimiters"

text \<open>
  \<^verbatim>\<open>/https?:\/\/[^\s"'<>(){}[\]]+\.m3u8(?:\?[^\s"'<>(){}[\]]*)?/gi\<close>, the pattern of all
  three textual scans.
\<close>

definition m3u8_regex :: rx where
  "m3u8_regex =
     Seq (lit ''http'') (Seq (Opt (lit ''s'')) (Seq (lit ''://'')
       (Seq (Plus url_char) (Seq (lit ''.m3u8'')
         (Opt (Seq (lit ''?'') (Star url_char)))))))"

text \<open>
  \<open>avoids X r\<close>: no match of \<open>r\<close> consumes a code unit of \<open>X\<close>. It is a property of
  the pattern alone, and decidable.
\<close>

fun avoids :: "jschar list \<Rightarrow> rx \<Rightarrow> bool" where
  "avoids X Eps = True"
| "avoids X (Chr p) = (\<forall>x \<in> set X. canonicalize x \<noteq> canonicalize p)"
| "avoids X (NoneOf cs) = (set X \<subseteq> set cs)"
| "avoids X (Seq a b) = (avoids X a \<and> avoids X b)"
| "avoids X (Opt a) = avoids X a"
| "avoids X (Star a) = avoids X a"

section \<open>Content Scanner\<close>

text \<open>
  The state of the page that the in-page function reads: the \<open>script\<close> elements, the
  globals of \<open>window\<close>, the attributes of every element, and the serialized document.
\<close>

record script =
  textContent :: jsstring
  innerText :: jsstring

text \<open>
  A global that the scan probes: reading it throws, or it is falsy, or it is truthy and
  \<open>JSON.stringify\<close> of it throws, returns \<^verbatim>\<open>undefined\<close> (\<open>None\<close>) or returns a string.
\<close>

datatype global = Throws error | Falsy | Truthy "error + jsstring option"

record page =
  scripts :: "script list"
  window :: "jsstring \<Rightarrow> global"
  elements :: "(jsstring \<times> jsstring) list list"
  innerHTML :: jsstring

definition scan_scripts :: "page \<Rightarrow> jsstring list \<Rightarrow> jsstring list" where
  "scan_scripts pg links =
     fold (\<lambda>script links.
             let content = (if textContent script \<noteq> [] then textContent script
                            else if innerText script \<noteq> [] then innerText script else [])
             in fold Set_add (match_all m3u8_regex content) links)
          (scripts pg) links"

definition videoConfigs :: "jsstring list" where
  "videoConfigs =
     [js ''jwplayer'', js ''videojs'', js ''Hls'', js ''hlsPlayer'', js ''player'',
      js ''videoPlayer'', js ''streamPlayer'', js ''mediaPlayer'', js ''jwConfig'']"

text \<open>
  Each global is probed inside its own \<open>try\<close>: whatever throws there (the read,
  \<open>JSON.stringify\<close>, or \<open>match\<close> on \<^verbatim>\<open>undefined\<close>) leaves the set as it is.
\<close>

definition scan_globals :: "page \<Rightarrow> jsstring list \<Rightarrow> jsstring list" where
  "scan_globals pg links =
     fold (\<lambda>configName links.
             case window pg configName of
               Throws e \<Rightarrow> links
             | Falsy \<Rightarrow> links
             | Truthy (Inl e) \<Rightarrow> links
             | Truthy (Inr None) \<Rightarrow> links
             | Truthy (Inr (Some configStr)) \<Rightarrow>
                 fold Set_add (match_all m3u8_regex configStr) links)
          videoConfigs links"

definition scan_attributes :: "page \<Rightarrow> jsstring list \<Rightarrow> jsstring list" where
  "scan_attributes pg links =
     fold (\<lambda>el links.
             fold (\<lambda>attr links.
                     case map_of el attr of
                       None \<Rightarrow> links
                     | Some v \<Rightarrow>
                         if v \<noteq> [] \<and> str_includes v dot_m3u8 then Set_add v links else links)
                  [js ''data-src'', js ''data-url'', js ''data-stream'', js ''data-file'', js ''src'']
                  links)
          (elements pg) links"

definition scan_html :: "page \<Rightarrow> jsstring list \<Rightarrow> jsstring list" where
  "scan_html pg links = fold Set_add (match_all m3u8_regex (innerHTML pg)) links"

text \<open>The function given to \<open>page.evaluate\<close>: the four passes on one set, then \<open>Array.from\<close>.\<close>

definition page_evaluate :: "page \<Rightarrow> jsstring list" where
  "page_evaluate pg = scan_html pg (scan_attributes pg (scan_globals pg (scan_scripts pg [])))"

section \<open>The extraction routine\<close>

text \<open>
  The calls the routine awaits, in the order it makes them. What each does is the
  browser's affair: the world of one invocation says which of them throws
  (\<open>outcome\<close>), what the hooks see while the page is open (\<open>traffic\<close>, up to the moment
  \<open>page.evaluate\<close> returns), the page the in-page function reads (\<open>document\<close>), and the
  clock (\<open>now\<close>).
\<close>

datatype call =
    ExecutablePath
  | Launch
  | NewPage
  | SetUserAgent
  | SetRequestInterception
  | Goto
  | WaitForTimeout
  | Evaluate
  | Close

record world =
  outcome :: "call \<Rightarrow> error option"
  traffic :: "net_event list"
  document :: page
  now :: jsstring

text \<open>
  Awaiting calls one after the other: the first that throws ends the sequence. The
  third argument lists the calls made so far.
\<close>

fun run_calls :: "world \<Rightarrow> call list \<Rightarrow> call list \<Rightarrow> error option \<times> call list" where
  "run_calls w [] made = (None, made)"
| "run_calls w (c # cs) made =
     (case outcome w c of
        Some e \<Rightarrow> (Some e, made @ [c])
      | None \<Rightarrow> run_calls w cs (made @ [c]))"

text \<open>
  The \<open>try\<close> block of \<open>extractM3U8WithBrowser\<close>: what it returns or throws, whether the
  variable \<open>browser\<close> has been assigned, and the calls made. \<open>browser\<close> is assigned once
  \<open>chromium.executablePath()\<close> and \<open>puppeteer.launch\<close> have returned.
\<close>

definition try_block :: "platform \<Rightarrow> world \<Rightarrow> (error + jsstring list) \<times> bool \<times> call list" where
  "try_block P w =
     (case run_calls w [ExecutablePath, Launch] [] of
        (Some e, made) \<Rightarrow> (Inl e, False, made)
      | (None, made) \<Rightarrow>
          (case run_calls w
                  [NewPage, SetUserAgent, SetRequestInterception, Goto, WaitForTimeout, Evaluate]
                  made of
             (Some e, made') \<Rightarrow> (Inl e, True, made')
           | (None, made') \<Rightarrow>
               (let m3u8Links = observe (traffic w) [];
                    pageM3u8Links = page_evaluate (document w);
                    m3u8Links = fold Set_add pageM3u8Links m3u8Links
                in (Inr (final_filter P m3u8Links), True, made'))))"

text \<open>
  The set \<open>m3u8Links\<close> when it is handed to the final filter: the Manifest Link Set.
\<close>

definition manifest_link_set :: "world \<Rightarrow> jsstring list" where
  "manifest_link_set w = fold Set_add (page_evaluate (document w)) (observe (traffic w) [])"

text \<open>
  With its \<open>finally\<close> block: \<^verbatim>\<open>if (browser) { await browser.close(); }\<close>. A \<open>close\<close> that
  throws replaces the outcome of the \<open>try\<close> block.
\<close>

definition extractM3U8WithBrowser :: "platform \<Rightarrow> world \<Rightarrow> (error + jsstring list) \<times> call list" where
  "extractM3U8WithBrowser P w =
     (case try_block P w of
        (r, browser, made) \<Rightarrow>
          if browser
          then (case outcome w Close of
                  Some e \<Rightarrow> (Inl e, made @ [Close])
                | None \<Rightarrow> (r, made @ [Close]))
          else (r, made))"

section \<open>The handler\<close>

record event =
  httpMethod :: jsstring
  queryStringParameters :: "(jsstring \<times> jsstring) list option"
  body :: "jsstring option"

text \<open>
  The body of a response is the empty string or \<open>JSON.stringify\<close> of a value; the
  model keeps the value.
\<close>

datatype payload = Empty | Json jsval

record response =
  statusCode :: nat
  headers :: "(string \<times> string) list"
  payload :: payload

definition cors_headers :: "(string \<times> string) list" where
  "cors_headers =
     [(''Access-Control-Allow-Origin'', ''*''),
      (''Access-Control-Allow-Methods'', ''GET, POST, OPTIONS''),
      (''Access-Control-Allow-Headers'', ''Content-Type''),
      (''Content-Type'', ''application/json'')]"

definition failure :: "nat \<Rightarrow> jsstring \<Rightarrow> response" where
  "failure code msg =
     \<lparr>statusCode = code, headers = cors_headers,
      payload = Json (JObj [(js ''success'', JBool False), (js ''error'', JStr msg)])\<rparr>"

text \<open>
  \<^verbatim>\<open>let targetUrl;
  if (event.httpMethod === 'GET') { targetUrl = event.queryStringParameters?.url; }
  else if (event.httpMethod === 'POST') {
    const body = JSON.parse(event.body || '{}'); targetUrl = body.url; }\<close>
\<close>

definition read_targetUrl :: "platform \<Rightarrow> event \<Rightarrow> error + jsval" where
  "read_targetUrl P ev =
     (if httpMethod ev = js ''GET'' then
        Inr (case queryStringParameters ev of
               None \<Rightarrow> JUndefined
             | Some q \<Rightarrow> (case map_of q (js ''url'') of None \<Rightarrow> JUndefined | Some v \<Rightarrow> JStr v))
      else if httpMethod ev = js ''POST'' then
        (case JSON_parse P (or_else (body ev) (js ''{}'')) of
           Inl e \<Rightarrow> Inl e
         | Inr b \<Rightarrow> get_prop b (js ''url''))
      else Inr JUndefined)"

text \<open>
  The \<open>try\<close> block of the handler: the response it returns or the error it throws, and
  the calls the extraction routine made (none when it was not invoked).
\<close>

definition handler_try :: "platform \<Rightarrow> world \<Rightarrow> event \<Rightarrow> (error + response) \<times> call list" where
  "handler_try P w ev =
     (case read_targetUrl P ev of
        Inl e \<Rightarrow> (Inl e, [])
      | Inr targetUrl \<Rightarrow>
          if \<not> to_boolean targetUrl then
            (Inr (failure 400
               (js ''Missing url parameter. Usage: /extract?url=https://example.com'')), [])
          else
            (case URL P targetUrl of
               Inl e \<Rightarrow> (Inr (failure 400 (js ''Invalid URL provided'')), [])
             | Inr u \<Rightarrow>
                 (case extractM3U8WithBrowser P w of
                    (Inl e, made) \<Rightarrow> (Inl e, made)
                  | (Inr m3u8Links, made) \<Rightarrow>
                      if length m3u8Links = 0 then
                        (Inr (failure 404 (js ''No M3U8 links found on the webpage'')), made)
                      else
                        (Inr \<lparr>statusCode = 200, headers = cors_headers,
                              payload = Json (JObj
                                [(js ''success'', JBool True),
                                 (js ''url'', targetUrl),
                                 (js ''m3u8Links'', JArr (map JStr m3u8Links)),
                                 (js ''primaryLink'',
                                    (case m3u8Links of [] \<Rightarrow> JUndefined | l # ls \<Rightarrow> JStr l)),
                                 (js ''timestamp'', JStr (now w))])\<rparr>, made))))"

text \<open>
  \<open>exports.handler\<close>: the \<open>OPTIONS\<close> short cut, and the \<open>catch\<close> that turns whatever the
  \<open>try\<close> block throws into the response 500. \<open>Inl\<close> would be an error that leaves the
  handler.
\<close>

definition handler :: "platform \<Rightarrow> world \<Rightarrow> event \<Rightarrow> (error + response) \<times> call list" where
  "handler P w ev =
     (if httpMethod ev = js ''OPTIONS'' then
        (Inr \<lparr>statusCode = 200, headers = cors_headers, payload = Empty\<rparr>, [])
      else
        (case handler_try P w ev of
           (Inl error, made) \<Rightarrow>
             (Inr (failure 500 (js ''Internal server error: '' @ message error)), made)
         | (Inr r, made) \<Rightarrow> (Inr r, made)))"

section \<open>A platform and worlds for examples\<close>

text \<open>
  The examples below need a runtime to evaluate on. \<open>example_URL\<close> reads a string
  \<^verbatim>\<open>http://host/path?query#fragment\<close> or \<^verbatim>\<open>https://...\<close> with a non-empty host and rejects
  every other value; \<open>example_JSON_parse\<close> is the table of \<open>JSON.parse\<close> at the two
  well-formed bodies used below and rejects every other body. They stand for the runtime
  only at the inputs the examples evaluate, where the runtime gives the same result; no
  theorem about the program below depends on them, only the examples.
\<close>

definition invalid_url :: error where
  "invalid_url = TypeError (js ''Invalid URL'')"

definition example_URL :: "jsval \<Rightarrow> error + url" where
  "example_URL v =
     (case v of
        JStr s \<Rightarrow>
          (let rest = (if prefix (js ''https://'') s then Some (drop 8 s)
                       else if prefix (js ''http://'') s then Some (drop 7 s)
                       else None)
           in case rest of
                None \<Rightarrow> Inl invalid_url
              | Some r \<Rightarrow>
                  (let stop = js ''/?#'';
                       host = takeWhile (\<lambda>c. c \<notin> set stop) r;
                       tail = dropWhile (\<lambda>c. c \<notin> set stop) r;
                       path = takeWhile (\<lambda>c. c \<notin> set (js ''?#'')) tail;
                       query = takeWhile (\<lambda>c. c \<notin> set (js ''#''))
                                 (dropWhile (\<lambda>c. c \<notin> set (js ''?#'')) tail)
                   in if host = [] then Inl invalid_url
                      else Inr \<lparr>pathname = (if path = [] then js ''/'' else path),
                                search = (if length query \<le> 1 then [] else query)\<rparr>))
      | _ \<Rightarrow> Inl invalid_url)"

definition watch_url :: jsstring where
  "watch_url = js ''https://example.com/watch''"

definition watch_body :: jsstring where
  \<open>watch_body = js ''{"url":"https://example.com/watch"}''\<close>

definition example_JSON_parse :: "jsstring \<Rightarrow> error + jsval" where
  "example_JSON_parse s =
     (if s = js ''{}'' then Inr (JObj [])
      else if s = watch_body then Inr (JObj [(js ''url'', JStr watch_url)])
      else Inl (SyntaxError (js ''Unexpected token'')))"

definition example_platform :: platform where
  "example_platform = \<lparr>URL = example_URL, JSON_parse = example_JSON_parse\<rparr>"

definition empty_page :: page where
  "empty_page = \<lparr>scripts = [], window = (\<lambda>name. Falsy), elements = [], innerHTML = []\<rparr>"

text \<open>A world in which no call throws, with the given traffic and page.\<close>

definition calm_world :: "net_event list \<Rightarrow> page \<Rightarrow> world" where
  "calm_world es pg =
     \<lparr>outcome = (\<lambda>c. None), traffic = es, document = pg,
      now = js ''2024-01-01T00:00:00.000Z''\<rparr>"

text \<open>A world in which the given call throws, and no other.\<close>

definition failing_world :: "call \<Rightarrow> world" where
  "failing_world c =
     \<lparr>outcome = (\<lambda>c'. if c' = c then Some (Error (js ''failed'')) else None),
      traffic = [], document = empty_page, now = js ''2024-01-01T00:00:00.000Z''\<rparr>"

definition mixed_world :: world where
  "mixed_world =
     calm_world
       [Request (js ''xhr'') (js ''https://cdn.example.com/stream/index.m3u8?token=abc''),
        Request (js ''document'') (js ''https://example.com/page.html?file=video.m3u8'')]
       (empty_page\<lparr>elements := [[(js ''data-src'', js ''stream/live.m3u8'')]]\<rparr>)"

definition master_url :: jsstring where
  "master_url = js ''https://example.com/video/master.m3u8''"

definition twice_seen_world :: world where
  "twice_seen_world =
     calm_world
       [Request (js ''xhr'') master_url, Response master_url (Some (js ''application/vnd.apple.mpegurl''))]
       (empty_page\<lparr>scripts := [\<lparr>textContent = js ''var src = '' @ [0x22] @ master_url @ [0x22, 0x3B],
                                   innerText = []\<rparr>],
                     elements := [[(js ''src'', master_url)]]\<rparr>)"

definition playlist_url :: jsstring where
  "playlist_url = js ''https://cdn.example.com/live/playlist?id=7''"

definition playlist_world :: world where
  "playlist_world =
     calm_world [Response playlist_url (Some (js ''application/vnd.apple.mpegurl; charset=utf-8''))]
       empty_page"

text \<open>The status of the response the handler returns, if it returns one.\<close>

definition status_of :: "(error + response) \<times> call list \<Rightarrow> nat option" where
  "status_of h = (case fst h of Inl e \<Rightarrow> None | Inr r \<Rightarrow> Some (statusCode r))"

definition get_event :: "jsstring \<Rightarrow> event" where
  "get_event s =
     \<lparr>httpMethod = js ''GET'', queryStringParameters = Some [(js ''url'', s)], body = None\<rparr>"

definition post_event :: "jsstring option \<Rightarrow> event" where
  "post_event b = \<lparr>httpMethod = js ''POST'', queryStringParameters = None, body = b\<rparr>"

definition options_event :: event where
  "options_event = \<lparr>httpMethod = js ''OPTIONS'', queryStringParameters = None, body = None\<rparr>"

text \<open>
  A page whose only content is one inline script: the serialized document holds the
  text of the script, as it does in a browser.
\<close>

definition inline_script_page :: "jsstring \<Rightarrow> page" where
  "inline_script_page code =
     \<lparr>scripts = [\<lparr>textContent = code, innerText = code\<rparr>],
      window = (\<lambda>name. Falsy),
      elements = [[], [], []],
      innerHTML = js ''<head><script>'' @ code @ js ''</script></head><body></body>''\<rparr>"

text \<open>Three scripts that hold the URL: quoted; with a query after it; inside another URL.\<close>

definition quoted_script :: jsstring where
  "quoted_script = js ''var u = '' @ [0x22] @ master_url @ [0x22, 0x3B]"

definition query_script :: jsstring where
  "query_script = js ''var u = '' @ [0x22] @ master_url @ js ''?x=1'' @ [0x22, 0x3B]"

definition proxied_script :: jsstring where
  "proxied_script =
     js ''var u = '' @ [0x22] @ js ''https://proxy.example.net/fetch?src='' @ master_url
       @ [0x22, 0x3B]"

section \<open>Properties\<close>

lemma str_includes_iff: "str_includes s t \<longleftrightarrow> (\<exists>p q. s = p @ t @ q)"
proof (induction s)
  case Nil
  then show ?case by auto
next
  case (Cons c s)
  show ?case
  proof
    assume "str_includes (c # s) t"
    then consider "prefix t (c # s)" | "str_includes s t" by auto
    then show "\<exists>p q. c # s = p @ t @ q"
    proof cases
      case 1
      then obtain q where "c # s = t @ q" by (auto simp: prefix_def)
      then have "c # s = [] @ t @ q" by simp
      then show ?thesis by blast
    next
      case 2
      with Cons obtain p q where "s = p @ t @ q" by blast
      then have "c # s = (c # p) @ t @ q" by simp
      then show ?thesis by blast
    qed
  next
    assume "\<exists>p q. c # s = p @ t @ q"
    then obtain p q where pq: "c # s = p @ t @ q" by blast
    show "str_includes (c # s) t"
    proof (cases p)
      case Nil
      with pq have "prefix t (c # s)" by (simp add: prefix_def)
      then show ?thesis by simp
    next
      case (Cons a p')
      with pq have "s = p' @ t @ q" by simp
      with Cons.IH have "str_includes s t" by blast
      then show ?thesis by simp
    qed
  qed
qed

subsection \<open>Sets, the observer and the calls\<close>

lemma set_Set_add: "set (Set_add x xs) = insert x (set xs)"
  by (auto simp: Set_add_def)

lemma distinct_Set_add: "distinct xs \<Longrightarrow> distinct (Set_add x xs)"
  by (simp add: Set_add_def)

lemma set_fold_Set_add: "set (fold Set_add ys xs) = set xs \<union> set ys"
  by (induction ys arbitrary: xs) (auto simp: set_Set_add)

lemma distinct_fold_Set_add: "distinct xs \<Longrightarrow> distinct (fold Set_add ys xs)"
  by (induction ys arbitrary: xs) (auto simp: distinct_Set_add)

lemma distinct_on_request: "distinct m \<Longrightarrow> distinct (fst (on_request m rt u))"
  by (simp add: on_request_def distinct_Set_add)

lemma distinct_on_response: "distinct m \<Longrightarrow> distinct (on_response m u h)"
  by (simp add: on_response_def Let_def distinct_Set_add)

lemma distinct_observe: "distinct m \<Longrightarrow> distinct (observe es m)"
  by (induction es m rule: observe.induct) (auto simp: distinct_on_request distinct_on_response)

lemma observe_mono: "set m \<subseteq> set (observe es m)"
proof (induction es m rule: observe.induct)
  case (1 m)
  then show ?case by simp
next
  case (2 rt u es m)
  have "set m \<subseteq> set (fst (on_request m rt u))"
    by (auto simp: on_request_def set_Set_add)
  with 2 show ?case by auto
next
  case (3 u h es m)
  have "set m \<subseteq> set (on_response m u h)"
    by (auto simp: on_response_def Let_def set_Set_add)
  with 3 show ?case by auto
qed

lemma distinct_manifest_link_set: "distinct (manifest_link_set w)"
  by (simp add: manifest_link_set_def distinct_fold_Set_add distinct_observe)

lemma run_calls_made:
  "run_calls w cs made = (r, made') \<Longrightarrow> \<exists>new. made' = made @ new \<and> set new \<subseteq> set cs"
proof (induction cs arbitrary: made)
  case Nil
  then show ?case by simp
next
  case (Cons c cs)
  show ?case
  proof (cases "outcome w c")
    case None
    with Cons.prems have "run_calls w cs (made @ [c]) = (r, made')" by simp
    from Cons.IH [OF this] obtain new where "made' = (made @ [c]) @ new" "set new \<subseteq> set cs"
      by blast
    then have "made' = made @ (c # new) \<and> set (c # new) \<subseteq> set (c # cs)" by auto
    then show ?thesis by blast
  next
    case (Some e)
    with Cons.prems have "made' = made @ [c]" by simp
    then have "made' = made @ [c] \<and> set [c] \<subseteq> set (c # cs)" by simp
    then show ?thesis by blast
  qed
qed

lemma run_calls_error:
  "run_calls w cs made = (Some e, made') \<Longrightarrow> \<exists>c \<in> set cs. outcome w c = Some e"
  by (induction cs arbitrary: made) (auto split: option.splits)

lemma run_calls_ok:
  "run_calls w cs made = (None, made') \<Longrightarrow> made' = made @ cs \<and> (\<forall>c \<in> set cs. outcome w c = None)"
proof (induction cs arbitrary: made)
  case Nil
  then show ?case by simp
next
  case (Cons c cs)
  from Cons.prems have c: "outcome w c = None" and
    rest: "run_calls w cs (made @ [c]) = (None, made')"
    by (auto split: option.splits)
  from Cons.IH [OF rest] c show ?case by simp
qed

lemma try_block_cases:
  "try_block P w = (r, b, made) \<Longrightarrow>
     (r = Inr (final_filter P (manifest_link_set w)) \<and> b) \<or> (\<exists>e c. r = Inl e \<and> outcome w c = Some e)"
  unfolding try_block_def manifest_link_set_def
  by (auto split: prod.splits option.splits dest!: run_calls_error)

lemma extract_cases:
  "fst (extractM3U8WithBrowser P w) = Inr (final_filter P (manifest_link_set w))
   \<or> (\<exists>e c. fst (extractM3U8WithBrowser P w) = Inl e \<and> outcome w c = Some e)"
proof -
  obtain r b made where tb: "try_block P w = (r, b, made)" by (cases "try_block P w") auto
  from try_block_cases [OF tb] show ?thesis
    using tb by (auto simp: extractM3U8WithBrowser_def split: option.splits)
qed

lemma extract_Inr:
  "fst (extractM3U8WithBrowser P w) = Inr links \<Longrightarrow> links = final_filter P (manifest_link_set w)"
  using extract_cases [of P w] by auto

lemma keep_link_iff:
  "keep_link P link \<longleftrightarrow> (\<exists>u. URL P (JStr link) = Inr u \<and> str_includes (pathname u) dot_m3u8)"
  by (simp add: keep_link_def split: sum.splits)

lemma count_list_distinct: "distinct xs \<Longrightarrow> x \<in> set xs \<Longrightarrow> count_list xs x = 1"
  by (induction xs) auto

lemma observe_request:
  "Request rt url \<in> set es \<Longrightarrow> str_includes url dot_m3u8 \<Longrightarrow> url \<in> set (observe es m)"
proof (induction es m rule: observe.induct)
  case (1 m)
  then show ?case by simp
next
  case (2 rt' u es m)
  show ?case
  proof (cases "Request rt url = Request rt' u")
    case True
    with "2.prems" have "url \<in> set (fst (on_request m rt' u))"
      by (simp add: on_request_def set_Set_add)
    with observe_mono show ?thesis by auto
  next
    case False
    with 2 show ?thesis by auto
  qed
next
  case (3 u h es m)
  then show ?case by auto
qed

lemma observe_response:
  "Response url header \<in> set es \<Longrightarrow> url \<in> set (on_response [] url header)
   \<Longrightarrow> url \<in> set (observe es m)"
proof (induction es m rule: observe.induct)
  case (1 m)
  then show ?case by simp
next
  case (2 rt' u es m)
  then show ?case by auto
next
  case (3 u h es m)
  show ?case
  proof (cases "Response url header = Response u h")
    case True
    with "3.prems" have "url \<in> set (on_response m u h)"
      by (auto simp: on_response_def Let_def set_Set_add split: if_splits)
    with observe_mono show ?thesis by auto
  next
    case False
    with 3 show ?thesis by auto
  qed
qed

section \<open>The final filter\<close>

text \<open>
  C5. The final filter step is idempotent: filtering a list that is already the output
  of the filter gives the same list, in the same order. It holds whatever the URL parser
  of the runtime is.
\<close>

theorem final_filter_idempotent:
  "final_filter P (final_filter P links) = final_filter P links"
  by (simp add: final_filter_def)

section \<open>The extraction result\<close>

text \<open>
  C1. Every string of the list that \<open>extractM3U8WithBrowser\<close> returns parses as a URL
  whose path contains \<^verbatim>\<open>.m3u8\<close>: the list is the Manifest Link Set with exactly the
  candidates removed that do not parse, or whose path lacks the marker, in the order of
  the set. Such candidates are dropped, they never make the routine fail: an error that
  the routine throws is one that a call to the browser threw. "Parses" is by the URL
  parser of the runtime, whatever it is.
\<close>

theorem extraction_result_valid:
  "(fst (extractM3U8WithBrowser P w) = Inr links \<longrightarrow>
      links = filter (\<lambda>link. \<exists>u. URL P (JStr link) = Inr u \<and> str_includes (pathname u) dot_m3u8)
                (manifest_link_set w)
      \<and> (\<forall>link \<in> set links.
            \<exists>u. URL P (JStr link) = Inr u \<and> str_includes (pathname u) dot_m3u8))
   \<and> (fst (extractM3U8WithBrowser P w) = Inl e \<longrightarrow> (\<exists>c. outcome w c = Some e))"
proof (intro conjI impI)
  assume r: "fst (extractM3U8WithBrowser P w) = Inr links"
  have eq: "keep_link P = (\<lambda>link. \<exists>u. URL P (JStr link) = Inr u \<and> str_includes (pathname u) dot_m3u8)"
    by (rule ext) (rule keep_link_iff)
  from extract_Inr [OF r] show
    "links = filter (\<lambda>link. \<exists>u. URL P (JStr link) = Inr u \<and> str_includes (pathname u) dot_m3u8)
               (manifest_link_set w)"
    by (simp add: final_filter_def eq)
  from extract_Inr [OF r] show
    "\<forall>link \<in> set links. \<exists>u. URL P (JStr link) = Inr u \<and> str_includes (pathname u) dot_m3u8"
    by (simp add: final_filter_def keep_link_iff)
next
  assume "fst (extractM3U8WithBrowser P w) = Inl e"
  with extract_cases [of P w] show "\<exists>c. outcome w c = Some e" by auto
qed

text \<open>
  An instance: a manifest request is kept; a request whose query only holds the marker,
  and a relative attribute value that is no absolute URL, are dropped. And a routine
  that fails does so with the error of the navigation.
\<close>

theorem extraction_result_valid_witness:
  "fst (extractM3U8WithBrowser example_platform mixed_world)
     = Inr [js ''https://cdn.example.com/stream/index.m3u8?token=abc'']
   \<and> manifest_link_set mixed_world
     = [js ''https://cdn.example.com/stream/index.m3u8?token=abc'',
        js ''https://example.com/page.html?file=video.m3u8'',
        js ''stream/live.m3u8'']
   \<and> [js ''https://cdn.example.com/stream/index.m3u8?token=abc'']
     = filter (\<lambda>link. \<exists>u. URL example_platform (JStr link) = Inr u
                          \<and> str_includes (pathname u) dot_m3u8)
         (manifest_link_set mixed_world)
   \<and> (\<exists>u. URL example_platform (JStr (js ''https://cdn.example.com/stream/index.m3u8?token=abc''))
            = Inr u \<and> str_includes (pathname u) dot_m3u8)
   \<and> fst (extractM3U8WithBrowser example_platform (failing_world Goto))
     = Inl (Error (js ''failed''))
   \<and> (\<exists>c. outcome (failing_world Goto) c = Some (Error (js ''failed'')))"
proof -
  have ok: "fst (extractM3U8WithBrowser example_platform mixed_world)
      = Inr [js ''https://cdn.example.com/stream/index.m3u8?token=abc'']"
    by code_simp
  have set: "manifest_link_set mixed_world
      = [js ''https://cdn.example.com/stream/index.m3u8?token=abc'',
         js ''https://example.com/page.html?file=video.m3u8'',
         js ''stream/live.m3u8'']"
    by code_simp
  have bad: "fst (extractM3U8WithBrowser example_platform (failing_world Goto))
      = Inl (Error (js ''failed''))"
    by code_simp
  from ok set bad
    extraction_result_valid [of example_platform mixed_world
      "[js ''https://cdn.example.com/stream/index.m3u8?token=abc'']"]
    extraction_result_valid [of example_platform "failing_world Goto" _ "Error (js ''failed'')"]
  show ?thesis by simp
qed

text \<open>
  C6. The final list has no duplicates: a manifest URL that the Traffic Observer has put
  into the set (from a request or a response) and that the Content Scanner returns, too,
  stands in the list exactly once.
\<close>

theorem result_no_duplicates:
  "fst (extractM3U8WithBrowser P w) = Inr links \<Longrightarrow>
     distinct links
     \<and> ((Request resourceType url \<in> set (traffic w) \<or> Response url header \<in> set (traffic w))
          \<and> str_includes url dot_m3u8
          \<and> url \<in> set (page_evaluate (document w))
          \<and> keep_link P url
        \<longrightarrow> url \<in> set (observe (traffic w) []) \<and> count_list links url = 1)"
proof -
  assume r: "fst (extractM3U8WithBrowser P w) = Inr links"
  then have links: "links = final_filter P (manifest_link_set w)" by (rule extract_Inr)
  then have d: "distinct links"
    by (simp add: final_filter_def distinct_manifest_link_set)
  have "count_list links url = 1"
    if "url \<in> set (page_evaluate (document w))" and "keep_link P url"
  proof -
    from that have "url \<in> set links"
      by (simp add: links final_filter_def manifest_link_set_def set_fold_Set_add)
    with d show ?thesis by (rule count_list_distinct)
  qed
  moreover have "url \<in> set (observe (traffic w) [])"
    if seen: "Request resourceType url \<in> set (traffic w) \<or> Response url header \<in> set (traffic w)"
      and marker: "str_includes url dot_m3u8"
  proof -
    from marker have "url \<in> set (on_response [] url header)"
      by (simp add: on_response_def Let_def set_Set_add)
    with seen marker show ?thesis
      using observe_request [of resourceType url "traffic w" "[]"]
        observe_response [of url header "traffic w" "[]"]
      by blast
  qed
  ultimately show ?thesis using d by blast
qed

text \<open>
  An instance: one URL requested, answered, written in a script and carried by a \<open>src\<close>
  attribute is returned once.
\<close>

theorem result_no_duplicates_witness:
  "fst (extractM3U8WithBrowser example_platform twice_seen_world) = Inr [master_url]
   \<and> Request (js ''xhr'') master_url \<in> set (traffic twice_seen_world)
   \<and> Response master_url (Some (js ''application/vnd.apple.mpegurl'')) \<in> set (traffic twice_seen_world)
   \<and> str_includes master_url dot_m3u8
   \<and> master_url \<in> set (page_evaluate (document twice_seen_world))
   \<and> keep_link example_platform master_url
   \<and> distinct [master_url]
   \<and> master_url \<in> set (observe (traffic twice_seen_world) [])
   \<and> count_list [master_url] master_url = 1"
proof -
  have r: "fst (extractM3U8WithBrowser example_platform twice_seen_world) = Inr [master_url]"
    by code_simp
  have t: "Request (js ''xhr'') master_url \<in> set (traffic twice_seen_world)"
      "Response master_url (Some (js ''application/vnd.apple.mpegurl'')) \<in> set (traffic twice_seen_world)"
    by (simp_all add: twice_seen_world_def calm_world_def)
  have i: "str_includes master_url dot_m3u8" by code_simp
  have p: "page_evaluate (document twice_seen_world) = [master_url]" by code_simp
  have k: "keep_link example_platform master_url" by code_simp
  from result_no_duplicates [OF r, of "js ''xhr''" master_url "Some (js ''application/vnd.apple.mpegurl'')"]
    r t i p k
  show ?thesis by simp
qed

section \<open>Teardown\<close>

lemma try_block_made:
  "try_block P w = (r, browser, made) \<Longrightarrow>
     Close \<notin> set made
     \<and> (browser \<longleftrightarrow> outcome w ExecutablePath = None \<and> outcome w Launch = None)
     \<and> (browser \<longrightarrow> Launch \<in> set made)"
proof -
  assume tb: "try_block P w = (r, browser, made)"
  obtain r1 m1 where one: "run_calls w [ExecutablePath, Launch] [] = (r1, m1)"
    by (cases "run_calls w [ExecutablePath, Launch] []") auto
  obtain r2 m2 where two:
    "run_calls w [NewPage, SetUserAgent, SetRequestInterception, Goto, WaitForTimeout, Evaluate] m1
       = (r2, m2)"
    by (cases "run_calls w [NewPage, SetUserAgent, SetRequestInterception, Goto, WaitForTimeout, Evaluate] m1") auto
  from run_calls_made [OF one] have m1: "Close \<notin> set m1" by auto
  from run_calls_made [OF two] m1 have m2: "Close \<notin> set m2 \<and> set m1 \<subseteq> set m2" by auto
  show ?thesis
  proof (cases r1)
    case (Some e)
    with one tb have "made = m1" "\<not> browser" by (auto simp: try_block_def)
    moreover from one Some have "outcome w ExecutablePath \<noteq> None \<or> outcome w Launch \<noteq> None"
      by (auto split: option.splits)
    ultimately show ?thesis using m1 by auto
  next
    case None
    with one two tb have "made = m2" "browser"
      by (auto simp: try_block_def split: option.splits)
    moreover from one None have "outcome w ExecutablePath = None \<and> outcome w Launch = None"
      and "m1 = [ExecutablePath, Launch]"
      using run_calls_ok [of w "[ExecutablePath, Launch]" "[]" m1] by auto
    ultimately show ?thesis using m2 by auto
  qed
qed

text \<open>
  C7. Once the browser has been launched, \<open>browser.close()\<close> is awaited on every exit
  path of the routine, whether it returns links, returns the empty list or throws, and
  it is the last thing the routine does before it returns or lets the error go: the log
  of calls ends with the one \<open>Close\<close>. When the launch fails there is nothing to close,
  and nothing is closed.
\<close>

theorem browser_closed_on_every_path:
  "(outcome w ExecutablePath = None \<and> outcome w Launch = None \<longrightarrow>
      (\<exists>before. snd (extractM3U8WithBrowser P w) = before @ [Close]
                \<and> Launch \<in> set before \<and> Close \<notin> set before))
   \<and> (outcome w ExecutablePath \<noteq> None \<or> outcome w Launch \<noteq> None \<longrightarrow>
      Close \<notin> set (snd (extractM3U8WithBrowser P w)))"
proof -
  obtain r browser made where tb: "try_block P w = (r, browser, made)"
    by (cases "try_block P w") auto
  from try_block_made [OF tb] tb show ?thesis
    by (auto simp: extractM3U8WithBrowser_def split: option.splits)
qed

text \<open>
  Instances: a run with a link, a run with none, a navigation that throws, an evaluation
  that throws; and a launch that throws.
\<close>

theorem browser_closed_on_every_path_witness:
  "snd (extractM3U8WithBrowser example_platform twice_seen_world)
     = [ExecutablePath, Launch, NewPage, SetUserAgent, SetRequestInterception, Goto,
        WaitForTimeout, Evaluate] @ [Close]
   \<and> fst (extractM3U8WithBrowser example_platform twice_seen_world) = Inr [master_url]
   \<and> snd (extractM3U8WithBrowser example_platform (calm_world [] empty_page))
     = [ExecutablePath, Launch, NewPage, SetUserAgent, SetRequestInterception, Goto,
        WaitForTimeout, Evaluate] @ [Close]
   \<and> fst (extractM3U8WithBrowser example_platform (calm_world [] empty_page)) = Inr []
   \<and> extractM3U8WithBrowser example_platform (failing_world Goto)
     = (Inl (Error (js ''failed'')),
        [ExecutablePath, Launch, NewPage, SetUserAgent, SetRequestInterception, Goto] @ [Close])
   \<and> extractM3U8WithBrowser example_platform (failing_world Evaluate)
     = (Inl (Error (js ''failed'')),
        [ExecutablePath, Launch, NewPage, SetUserAgent, SetRequestInterception, Goto,
         WaitForTimeout, Evaluate] @ [Close])
   \<and> extractM3U8WithBrowser example_platform (failing_world Launch)
     = (Inl (Error (js ''failed'')), [ExecutablePath, Launch])"
proof -
  have a: "extractM3U8WithBrowser example_platform twice_seen_world
      = (Inr [master_url], [ExecutablePath, Launch, NewPage, SetUserAgent, SetRequestInterception, Goto,
        WaitForTimeout, Evaluate, Close])"
    by code_simp
  have b: "extractM3U8WithBrowser example_platform (calm_world [] empty_page)
      = (Inr [], [ExecutablePath, Launch, NewPage, SetUserAgent, SetRequestInterception, Goto,
        WaitForTimeout, Evaluate, Close])"
    by code_simp
  have c: "extractM3U8WithBrowser example_platform (failing_world Goto)
     = (Inl (Error (js ''failed'')),
        [ExecutablePath, Launch, NewPage, SetUserAgent, SetRequestInterception, Goto, Close])"
    by code_simp
  have d: "extractM3U8WithBrowser example_platform (failing_world Evaluate)
     = (Inl (Error (js ''failed'')),
        [ExecutablePath, Launch, NewPage, SetUserAgent, SetRequestInterception, Goto,
         WaitForTimeout, Evaluate, Close])"
    by code_simp
  have e: "extractM3U8WithBrowser example_platform (failing_world Launch)
     = (Inl (Error (js ''failed'')), [ExecutablePath, Launch])"
    by code_simp
  from a b c d e
    browser_closed_on_every_path [of twice_seen_world example_platform]
    browser_closed_on_every_path [of "failing_world Launch" example_platform]
  show ?thesis by simp
qed

section \<open>Blocked requests\<close>

text \<open>
  C3, as stated, fails: the hook looks at the URL before it looks at the resource
  type, so the URL of an image request that contains \<^verbatim>\<open>.m3u8\<close> is added to the set, and
  the request is aborted then.
\<close>

theorem blocked_request_candidate_counterexample:
  "on_request [] (js ''image'') (js ''https://cdn.example.com/thumbs/live.m3u8.jpg'')
     = ([js ''https://cdn.example.com/thumbs/live.m3u8.jpg''], Abort)"
  by code_simp

text \<open>
  C3, amended. A request whose resource type is image, font or stylesheet is aborted.
  The resource type plays no part in what becomes a candidate: the set after the hook is
  the same as for a request of any other type with that URL, so the URL is in the set
  when it contains \<^verbatim>\<open>.m3u8\<close>, and the set is unchanged when it does not.
\<close>

theorem blocked_request:
  "resourceType \<in> {js ''image'', js ''font'', js ''stylesheet''} \<Longrightarrow>
     snd (on_request m3u8Links resourceType url) = Abort
     \<and> fst (on_request m3u8Links resourceType url) = fst (on_request m3u8Links other url)
     \<and> (str_includes url dot_m3u8 \<longrightarrow> url \<in> set (fst (on_request m3u8Links resourceType url)))
     \<and> (\<not> str_includes url dot_m3u8 \<longrightarrow> fst (on_request m3u8Links resourceType url) = m3u8Links)"
  by (auto simp: on_request_def set_Set_add)

text \<open>
  Instances: a font request without the marker leaves the set empty and is aborted; a
  stylesheet request with the marker is aborted with its URL in the set.
\<close>

theorem blocked_request_witness:
  "js ''font'' \<in> {js ''image'', js ''font'', js ''stylesheet''}
   \<and> on_request [] (js ''font'') (js ''https://cdn.example.com/a.woff2'') = ([], Abort)
   \<and> fst (on_request [] (js ''font'') (js ''https://cdn.example.com/a.woff2''))
       = fst (on_request [] (js ''xhr'') (js ''https://cdn.example.com/a.woff2''))
   \<and> \<not> str_includes (js ''https://cdn.example.com/a.woff2'') dot_m3u8
   \<and> snd (on_request [] (js ''stylesheet'') (js ''https://cdn.example.com/live.m3u8.css'')) = Abort
   \<and> str_includes (js ''https://cdn.example.com/live.m3u8.css'') dot_m3u8
   \<and> js ''https://cdn.example.com/live.m3u8.css''
        \<in> set (fst (on_request [] (js ''stylesheet'') (js ''https://cdn.example.com/live.m3u8.css'')))"
proof -
  have a: "js ''font'' \<in> {js ''image'', js ''font'', js ''stylesheet''}" by simp
  have b: "js ''stylesheet'' \<in> {js ''image'', js ''font'', js ''stylesheet''}" by simp
  have c: "\<not> str_includes (js ''https://cdn.example.com/a.woff2'') dot_m3u8" by code_simp
  have d: "str_includes (js ''https://cdn.example.com/live.m3u8.css'') dot_m3u8" by code_simp
  from c d
    blocked_request [OF a, of "[]" "js ''https://cdn.example.com/a.woff2''" "js ''xhr''"]
    blocked_request [OF b, of "[]" "js ''https://cdn.example.com/live.m3u8.css''" "js ''xhr''"]
  show ?thesis by (auto simp: prod_eq_iff)
qed

section \<open>Capture by content type\<close>

text \<open>
  C4. A response whose content type contains \<^verbatim>\<open>application/vnd.apple.mpegurl\<close> or
  \<^verbatim>\<open>application/x-mpegurl\<close>, and whose URL does not contain \<^verbatim>\<open>.m3u8\<close>, is added to the
  Manifest Link Set by the \<open>response\<close> hook, and the final filter removes it from the
  result. The parser is the runtime's: of it the theorem asks what the claim takes for
  granted, that a path read off this URL holds the marker only if the URL does (the
  path of a URL that a browser reports is a part of that URL).
\<close>

theorem content_type_capture_filtered:
  assumes ct: "str_includes contentType (js ''application/vnd.apple.mpegurl'')
               \<or> str_includes contentType (js ''application/x-mpegurl'')"
    and url: "\<not> str_includes url dot_m3u8"
    and parser: "\<And>u. URL P (JStr url) = Inr u \<Longrightarrow> str_includes (pathname u) dot_m3u8
                   \<Longrightarrow> str_includes url dot_m3u8"
  shows "url \<in> set (on_response m3u8Links url (Some contentType))
    \<and> (Response url (Some contentType) \<in> set (traffic w) \<longrightarrow> url \<in> set (manifest_link_set w))
    \<and> (fst (extractM3U8WithBrowser P w) = Inr links \<longrightarrow> url \<notin> set links)"
proof (intro conjI impI)
  from ct have ne: "contentType \<noteq> []" by (auto simp: js_def)
  with ct show added: "url \<in> set (on_response m3u8Links url (Some contentType))" for m3u8Links
    by (auto simp: on_response_def or_else_def Let_def set_Set_add)
  assume "Response url (Some contentType) \<in> set (traffic w)"
  from observe_response [OF this added] show "url \<in> set (manifest_link_set w)"
    by (simp add: manifest_link_set_def set_fold_Set_add)
next
  assume "fst (extractM3U8WithBrowser P w) = Inr links"
  then have "links = final_filter P (manifest_link_set w)" by (rule extract_Inr)
  moreover from url parser have "\<not> keep_link P url" by (auto simp: keep_link_iff)
  ultimately show "url \<notin> set links" by (simp add: final_filter_def)
qed

text \<open>
  An instance: a playlist served as \<^verbatim>\<open>application/vnd.apple.mpegurl; charset=utf-8\<close> from
  a URL with no marker is collected and not returned.
\<close>

theorem content_type_capture_filtered_witness:
  "str_includes (js ''application/vnd.apple.mpegurl; charset=utf-8'')
      (js ''application/vnd.apple.mpegurl'')
   \<and> \<not> str_includes playlist_url dot_m3u8
   \<and> URL example_platform (JStr playlist_url)
       = Inr \<lparr>pathname = js ''/live/playlist'', search = js ''?id=7''\<rparr>
   \<and> on_response [] playlist_url (Some (js ''application/vnd.apple.mpegurl; charset=utf-8'')) = [playlist_url]
   \<and> manifest_link_set playlist_world = [playlist_url]
   \<and> fst (extractM3U8WithBrowser example_platform playlist_world) = Inr []
   \<and> playlist_url \<notin> set []"
proof -
  have ct: "str_includes (js ''application/vnd.apple.mpegurl; charset=utf-8'')
      (js ''application/vnd.apple.mpegurl'')
      \<or> str_includes (js ''application/vnd.apple.mpegurl; charset=utf-8'')
      (js ''application/x-mpegurl'')" by code_simp
  have ct1: "str_includes (js ''application/vnd.apple.mpegurl; charset=utf-8'')
      (js ''application/vnd.apple.mpegurl'')" by code_simp
  have url: "\<not> str_includes playlist_url dot_m3u8" by code_simp
  have p: "URL example_platform (JStr playlist_url)
       = Inr \<lparr>pathname = js ''/live/playlist'', search = js ''?id=7''\<rparr>" by code_simp
  have np: "\<not> str_includes (js ''/live/playlist'') dot_m3u8" by code_simp
  have parser: "\<And>u. URL example_platform (JStr playlist_url) = Inr u
       \<Longrightarrow> str_includes (pathname u) dot_m3u8 \<Longrightarrow> str_includes playlist_url dot_m3u8"
    using p np by auto
  have a: "on_response [] playlist_url (Some (js ''application/vnd.apple.mpegurl; charset=utf-8'')) = [playlist_url]"
    by code_simp
  have b: "manifest_link_set playlist_world = [playlist_url]" by code_simp
  have c: "fst (extractM3U8WithBrowser example_platform playlist_world) = Inr []" by code_simp
  from content_type_capture_filtered
      [where ?m3u8Links = "[]" and ?w = playlist_world and ?links = "[]", OF ct url parser] ct1 url p a b c
  show ?thesis by simp
qed

section \<open>The handler's responses\<close>

lemma methods_differ:
  "js ''GET'' \<noteq> js ''OPTIONS''" "js ''POST'' \<noteq> js ''OPTIONS''" "js ''POST'' \<noteq> js ''GET''"
  by (simp_all add: js_def)

lemma handler_not_options:
  "httpMethod ev \<noteq> js ''OPTIONS'' \<Longrightarrow>
     handler P w ev =
       (case handler_try P w ev of
          (Inl e, made) \<Rightarrow> (Inr (failure 500 (js ''Internal server error: '' @ message e)), made)
        | (Inr r, made) \<Rightarrow> (Inr r, made))"
  by (simp add: handler_def)

text \<open>
  C10. A \<open>POST\<close> whose body is a non-empty string on which \<open>JSON.parse\<close> throws is
  answered with status 500, success false and the message \<^verbatim>\<open>Internal server error: \<close>
  followed by the parser's, not with the 400 of an input error; the extraction routine
  is not invoked. An absent or empty body is parsed as \<^verbatim>\<open>{}\<close> and answered with the 400 of
  the missing url.
\<close>

theorem malformed_json_body:
  "httpMethod ev = js ''POST'' \<Longrightarrow>
     (body ev = Some b \<and> b \<noteq> [] \<and> JSON_parse P b = Inl e \<longrightarrow>
        handler P w ev =
          (Inr \<lparr>statusCode = 500, headers = cors_headers,
                payload = Json (JObj [(js ''success'', JBool False),
                                      (js ''error'', JStr (js ''Internal server error: '' @ message e))])\<rparr>,
           []))
     \<and> ((body ev = None \<or> body ev = Some []) \<and> JSON_parse P (js ''{}'') = Inr (JObj []) \<longrightarrow>
        handler P w ev =
          (Inr \<lparr>statusCode = 400, headers = cors_headers,
                payload = Json (JObj [(js ''success'', JBool False),
                                      (js ''error'', JStr (js ''Missing url parameter. Usage: /extract?url=https://example.com''))])\<rparr>,
           []))"
proof -
  assume post: "httpMethod ev = js ''POST''"
  then have h: "handler P w ev =
       (case handler_try P w ev of
          (Inl e, made) \<Rightarrow> (Inr (failure 500 (js ''Internal server error: '' @ message e)), made)
        | (Inr r, made) \<Rightarrow> (Inr r, made))"
    by (simp add: handler_not_options methods_differ)
  have r: "read_targetUrl P ev =
      (case JSON_parse P (or_else (body ev) (js ''{}'')) of
           Inl e \<Rightarrow> Inl e
         | Inr b \<Rightarrow> get_prop b (js ''url''))"
    using post by (simp add: read_targetUrl_def methods_differ)
  show ?thesis
    by (auto simp: h r handler_try_def or_else_def failure_def)
qed

text \<open>
  Instances: the body \<^verbatim>\<open>not json\<close>; no body; the empty body.
\<close>

theorem malformed_json_body_witness:
  "httpMethod (post_event (Some (js ''not json''))) = js ''POST''
   \<and> js ''not json'' \<noteq> []
   \<and> JSON_parse example_platform (js ''not json'') = Inl (SyntaxError (js ''Unexpected token''))
   \<and> handler example_platform twice_seen_world (post_event (Some (js ''not json'')))
     = (Inr \<lparr>statusCode = 500, headers = cors_headers,
              payload = Json (JObj [(js ''success'', JBool False),
                (js ''error'', JStr (js ''Internal server error: '' @ js ''Unexpected token''))])\<rparr>,
        [])
   \<and> JSON_parse example_platform (js ''{}'') = Inr (JObj [])
   \<and> handler example_platform twice_seen_world (post_event None)
     = (Inr \<lparr>statusCode = 400, headers = cors_headers,
              payload = Json (JObj [(js ''success'', JBool False),
                (js ''error'', JStr (js ''Missing url parameter. Usage: /extract?url=https://example.com''))])\<rparr>,
        [])
   \<and> handler example_platform twice_seen_world (post_event (Some []))
     = (Inr \<lparr>statusCode = 400, headers = cors_headers,
              payload = Json (JObj [(js ''success'', JBool False),
                (js ''error'', JStr (js ''Missing url parameter. Usage: /extract?url=https://example.com''))])\<rparr>,
        [])"
proof -
  have m: "httpMethod (post_event b) = js ''POST''" for b
    by (simp add: post_event_def)
  have b: "body (post_event b) = b" for b
    by (simp add: post_event_def)
  have ne: "js ''not json'' \<noteq> []" by (simp add: js_def)
  have bad: "JSON_parse example_platform (js ''not json'') = Inl (SyntaxError (js ''Unexpected token''))"
    by code_simp
  have ok: "JSON_parse example_platform (js ''{}'') = Inr (JObj [])"
    by code_simp
  from m b ne bad ok
    malformed_json_body [OF m, of "Some (js ''not json'')" "js ''not json''" example_platform
      "SyntaxError (js ''Unexpected token'')" twice_seen_world]
    malformed_json_body [OF m, of None _ example_platform _ twice_seen_world]
    malformed_json_body [OF m, of "Some []" _ example_platform _ twice_seen_world]
  show ?thesis by simp
qed

text \<open>
  C9. When the target URL that the handler reads (from the query of a \<open>GET\<close>, from the
  body of a \<open>POST\<close>) is a non-empty string that parses as a URL, the handler returns a
  response and throws nothing; the status is 200, 404 or 500, and the body is the JSON of
  an object whose \<open>success\<close> member is a boolean (true with 200 only).
\<close>

theorem valid_url_never_throws:
  assumes t: "read_targetUrl P ev = Inr (JStr s)" and s: "s \<noteq> []"
    and u: "URL P (JStr s) = Inr u"
  shows "\<exists>r. fst (handler P w ev) = Inr r
           \<and> statusCode r \<in> {200, 404, 500}
           \<and> (\<exists>b rest. payload r = Json (JObj ((js ''success'', JBool b) # rest))
                \<and> (b \<longleftrightarrow> statusCode r = 200))"
proof -
  have "httpMethod ev \<noteq> js ''OPTIONS''"
  proof
    assume "httpMethod ev = js ''OPTIONS''"
    then have "read_targetUrl P ev = Inr JUndefined"
      using methods_differ by (simp add: read_targetUrl_def)
    with t show False by simp
  qed
  note h = handler_not_options [OF this]
  obtain x made where e: "extractM3U8WithBrowser P w = (x, made)"
    by (cases "extractM3U8WithBrowser P w") auto
  show ?thesis
  proof (cases x)
    case (Inl err)
    with t s u e show ?thesis by (simp add: h handler_try_def failure_def)
  next
    case (Inr links)
    with t s u e show ?thesis by (cases links) (simp_all add: h handler_try_def failure_def)
  qed
qed

text \<open>
  Instances: the target in the query of a \<open>GET\<close>, with a page that has a link (200), a
  page that has none (404) and a navigation that throws (500); and the target in the body
  of a \<open>POST\<close>.
\<close>

theorem valid_url_never_throws_witness:
  "read_targetUrl example_platform (get_event watch_url) = Inr (JStr watch_url)
   \<and> watch_url \<noteq> []
   \<and> URL example_platform (JStr watch_url) = Inr \<lparr>pathname = js ''/watch'', search = []\<rparr>
   \<and> (\<exists>r. fst (handler example_platform twice_seen_world (get_event watch_url)) = Inr r
          \<and> statusCode r \<in> {200, 404, 500}
          \<and> (\<exists>b rest. payload r = Json (JObj ((js ''success'', JBool b) # rest))
               \<and> (b \<longleftrightarrow> statusCode r = 200)))
   \<and> status_of (handler example_platform twice_seen_world (get_event watch_url)) = Some 200
   \<and> status_of (handler example_platform (calm_world [] empty_page) (get_event watch_url)) = Some 404
   \<and> status_of (handler example_platform (failing_world Goto) (get_event watch_url)) = Some 500
   \<and> read_targetUrl example_platform (post_event (Some watch_body)) = Inr (JStr watch_url)
   \<and> (\<exists>r. fst (handler example_platform twice_seen_world (post_event (Some watch_body))) = Inr r
          \<and> statusCode r \<in> {200, 404, 500}
          \<and> (\<exists>b rest. payload r = Json (JObj ((js ''success'', JBool b) # rest))
               \<and> (b \<longleftrightarrow> statusCode r = 200)))"
proof -
  have t: "read_targetUrl example_platform (get_event watch_url) = Inr (JStr watch_url)"
    by code_simp
  have t': "read_targetUrl example_platform (post_event (Some watch_body)) = Inr (JStr watch_url)"
    by code_simp
  have s: "watch_url \<noteq> []" by (simp add: watch_url_def js_def)
  have u: "URL example_platform (JStr watch_url) = Inr \<lparr>pathname = js ''/watch'', search = []\<rparr>"
    by code_simp
  have a: "status_of (handler example_platform twice_seen_world (get_event watch_url)) = Some 200"
    by code_simp
  have b: "status_of (handler example_platform (calm_world [] empty_page) (get_event watch_url)) = Some 404"
    by code_simp
  have c: "status_of (handler example_platform (failing_world Goto) (get_event watch_url)) = Some 500"
    by code_simp
  from valid_url_never_throws [OF t s u, of twice_seen_world]
    valid_url_never_throws [OF t' s u, of twice_seen_world] t t' s u a b c
  show ?thesis by blast
qed

text \<open>
  C2, as stated, fails: a \<open>POST\<close> whose body is not JSON carries no target URL, and
  the answer is 500, not 400 (it is \<open>JSON.parse\<close> that throws, inside the \<open>try\<close>).
\<close>

theorem handler_status_counterexample:
  "read_targetUrl example_platform (post_event (Some (js ''not json'')))
     = Inl (SyntaxError (js ''Unexpected token''))
   \<and> status_of (handler example_platform (calm_world [] empty_page)
                  (post_event (Some (js ''not json'')))) = Some 500"
  by code_simp

text \<open>
  C2, amended. \<open>OPTIONS\<close> is answered 200 with an empty body, and the extraction routine
  is not invoked. For any other method: a \<open>POST\<close> body on which \<open>JSON.parse\<close> throws is
  answered 500; when the target URL has been read, it is answered 400 if it is missing
  (falsy) or does not parse, without invoking the routine; otherwise 500 if the routine
  throws, 404 if it returns the empty list, and 200 if it returns at least one link.
\<close>

theorem handler_status:
  "(httpMethod ev = js ''OPTIONS'' \<longrightarrow>
      handler P w ev = (Inr \<lparr>statusCode = 200, headers = cors_headers, payload = Empty\<rparr>, []))
   \<and> (httpMethod ev \<noteq> js ''OPTIONS'' \<longrightarrow>
      (httpMethod ev = js ''POST'' \<and> JSON_parse P (or_else (body ev) (js ''{}'')) = Inl e \<longrightarrow>
         status_of (handler P w ev) = Some 500 \<and> snd (handler P w ev) = [])
      \<and> (read_targetUrl P ev = Inr t \<longrightarrow>
           ((\<not> to_boolean t \<or> isl (URL P t)) \<longrightarrow>
              status_of (handler P w ev) = Some 400 \<and> snd (handler P w ev) = [])
           \<and> (to_boolean t \<and> \<not> isl (URL P t) \<longrightarrow>
                (fst (extractM3U8WithBrowser P w) = Inl e' \<longrightarrow>
                   status_of (handler P w ev) = Some 500)
                \<and> (fst (extractM3U8WithBrowser P w) = Inr [] \<longrightarrow>
                   status_of (handler P w ev) = Some 404)
                \<and> (fst (extractM3U8WithBrowser P w) = Inr (l # ls) \<longrightarrow>
                   status_of (handler P w ev) = Some 200))))"
proof (intro conjI impI)
  assume "httpMethod ev = js ''OPTIONS''"
  then show "handler P w ev = (Inr \<lparr>statusCode = 200, headers = cors_headers, payload = Empty\<rparr>, [])"
    by (simp add: handler_def)
next
  assume "httpMethod ev \<noteq> js ''OPTIONS''"
  note h = handler_not_options [OF this]
  {
    assume "httpMethod ev = js ''POST'' \<and> JSON_parse P (or_else (body ev) (js ''{}'')) = Inl e"
    then have "read_targetUrl P ev = Inl e"
      by (simp add: read_targetUrl_def methods_differ)
    then show "status_of (handler P w ev) = Some 500" "snd (handler P w ev) = []"
      by (simp_all add: h handler_try_def status_of_def failure_def)
  }
  assume t: "read_targetUrl P ev = Inr t"
  {
    assume "\<not> to_boolean t \<or> isl (URL P t)"
    then show "status_of (handler P w ev) = Some 400" "snd (handler P w ev) = []"
      using t by (auto simp: h handler_try_def status_of_def failure_def split: sum.splits)
  }
  assume ok: "to_boolean t \<and> \<not> isl (URL P t)"
  then obtain u where u: "URL P t = Inr u" by (cases "URL P t") auto
  {
    assume "fst (extractM3U8WithBrowser P w) = Inl e'"
    then show "status_of (handler P w ev) = Some 500"
      using t ok u
      by (cases "extractM3U8WithBrowser P w")
         (simp add: h handler_try_def status_of_def failure_def)
  }
  {
    assume "fst (extractM3U8WithBrowser P w) = Inr []"
    then show "status_of (handler P w ev) = Some 404"
      using t ok u
      by (cases "extractM3U8WithBrowser P w")
         (simp add: h handler_try_def status_of_def failure_def)
  }
  {
    assume "fst (extractM3U8WithBrowser P w) = Inr (l # ls)"
    then show "status_of (handler P w ev) = Some 200"
      using t ok u
      by (cases "extractM3U8WithBrowser P w")
         (simp add: h handler_try_def status_of_def failure_def)
  }
qed

text \<open>
  Instances, one for each line of the table: the preflight; a body that is not JSON;
  no target (an absent body); a target that is no URL; a launch that throws; a page with
  no link; a page with a link.
\<close>

theorem handler_status_witness:
  "handler example_platform twice_seen_world options_event
     = (Inr \<lparr>statusCode = 200, headers = cors_headers, payload = Empty\<rparr>, [])
   \<and> status_of (handler example_platform twice_seen_world (post_event (Some (js ''not json'')))) = Some 500
   \<and> snd (handler example_platform twice_seen_world (post_event (Some (js ''not json'')))) = []
   \<and> read_targetUrl example_platform (post_event None) = Inr JUndefined
   \<and> status_of (handler example_platform twice_seen_world (post_event None)) = Some 400
   \<and> snd (handler example_platform twice_seen_world (post_event None)) = []
   \<and> read_targetUrl example_platform (get_event (js ''example.com/watch''))
       = Inr (JStr (js ''example.com/watch''))
   \<and> URL example_platform (JStr (js ''example.com/watch'')) = Inl invalid_url
   \<and> status_of (handler example_platform twice_seen_world (get_event (js ''example.com/watch''))) = Some 400
   \<and> snd (handler example_platform twice_seen_world (get_event (js ''example.com/watch''))) = []
   \<and> fst (extractM3U8WithBrowser example_platform (failing_world Launch))
       = Inl (Error (js ''failed''))
   \<and> status_of (handler example_platform (failing_world Launch) (get_event watch_url)) = Some 500
   \<and> fst (extractM3U8WithBrowser example_platform (calm_world [] empty_page)) = Inr []
   \<and> status_of (handler example_platform (calm_world [] empty_page) (get_event watch_url)) = Some 404
   \<and> fst (extractM3U8WithBrowser example_platform twice_seen_world) = Inr [master_url]
   \<and> status_of (handler example_platform twice_seen_world (get_event watch_url)) = Some 200"
proof -
  have o: "httpMethod options_event = js ''OPTIONS''" by (simp add: options_event_def)
  have p: "httpMethod (post_event b) = js ''POST''" "httpMethod (post_event b) \<noteq> js ''OPTIONS''"
      "body (post_event b) = b" for b
    by (simp_all add: post_event_def methods_differ)
  have g: "httpMethod (get_event s) \<noteq> js ''OPTIONS''" for s
    by (simp add: get_event_def methods_differ)
  have bad: "JSON_parse example_platform (or_else (Some (js ''not json'')) (js ''{}''))
      = Inl (SyntaxError (js ''Unexpected token''))"
    by code_simp
  have t1: "read_targetUrl example_platform (post_event None) = Inr JUndefined"
    by code_simp
  have t2: "read_targetUrl example_platform (get_event (js ''example.com/watch''))
       = Inr (JStr (js ''example.com/watch''))"
    by code_simp
  have u2: "URL example_platform (JStr (js ''example.com/watch'')) = Inl invalid_url"
    by code_simp
  have t3: "read_targetUrl example_platform (get_event watch_url) = Inr (JStr watch_url)"
    by code_simp
  have u3: "URL example_platform (JStr watch_url) = Inr \<lparr>pathname = js ''/watch'', search = []\<rparr>"
    by code_simp
  have s3: "watch_url \<noteq> []" by (simp add: watch_url_def js_def)
  have s2: "js ''example.com/watch'' \<noteq> []" by (simp add: js_def)
  have e1: "fst (extractM3U8WithBrowser example_platform (failing_world Launch))
       = Inl (Error (js ''failed''))"
    by code_simp
  have e2: "fst (extractM3U8WithBrowser example_platform (calm_world [] empty_page)) = Inr []"
    by code_simp
  have e3: "fst (extractM3U8WithBrowser example_platform twice_seen_world) = Inr [master_url]"
    by code_simp
  from handler_status [of options_event example_platform twice_seen_world] o
  have c1: "handler example_platform twice_seen_world options_event
     = (Inr \<lparr>statusCode = 200, headers = cors_headers, payload = Empty\<rparr>, [])"
    by blast
  from handler_status [of "post_event (Some (js ''not json''))" example_platform twice_seen_world
      "SyntaxError (js ''Unexpected token'')"] p bad
  have c2: "status_of (handler example_platform twice_seen_world (post_event (Some (js ''not json'')))) = Some 500"
      "snd (handler example_platform twice_seen_world (post_event (Some (js ''not json'')))) = []"
    by simp_all
  from handler_status [of "post_event None" example_platform twice_seen_world _ JUndefined] p t1
  have c3: "status_of (handler example_platform twice_seen_world (post_event None)) = Some 400"
      "snd (handler example_platform twice_seen_world (post_event None)) = []"
    by simp_all
  from handler_status [of "get_event (js ''example.com/watch'')" example_platform twice_seen_world _
      "JStr (js ''example.com/watch'')"] g t2 u2
  have c4: "status_of (handler example_platform twice_seen_world (get_event (js ''example.com/watch''))) = Some 400"
      "snd (handler example_platform twice_seen_world (get_event (js ''example.com/watch''))) = []"
    by simp_all
  from handler_status [of "get_event watch_url" example_platform "failing_world Launch" _
      "JStr watch_url" "Error (js ''failed'')"] g t3 u3 s3 e1
  have c5: "status_of (handler example_platform (failing_world Launch) (get_event watch_url)) = Some 500"
    by simp
  from handler_status [of "get_event watch_url" example_platform "calm_world [] empty_page" _
      "JStr watch_url"] g t3 u3 s3 e2
  have c6: "status_of (handler example_platform (calm_world [] empty_page) (get_event watch_url)) = Some 404"
    by simp
  from handler_status [of "get_event watch_url" example_platform twice_seen_world _
      "JStr watch_url" _ master_url "[]"] g t3 u3 s3 e3
  have c7: "status_of (handler example_platform twice_seen_world (get_event watch_url)) = Some 200"
    by simp
  from c1 c2 c3 c4 c5 c6 c7 t1 t2 u2 e1 e2 e3 show ?thesis by simp
qed

section \<open>The script text scan\<close>

subsection \<open>What a match consumes\<close>

lemma avoids_regex: "avoids delimiters m3u8_regex"
  by code_simp

lemma rx_match_Star:
  "t \<in> set (rx_match (Star a) s) \<longleftrightarrow>
     t = s \<or> (\<exists>t' \<in> set (rx_match a s). length t' < length s \<and> t \<in> set (rx_match (Star a) t'))"
  by (subst rx_match.simps(6)) (auto split: if_splits)

lemma rx_match_avoids:
  "avoids X r \<Longrightarrow> t \<in> set (rx_match r s) \<Longrightarrow> \<exists>m. s = m @ t \<and> set m \<inter> set X = {}"
proof (induction r s arbitrary: t rule: rx_match.induct)
  case (1 s)
  then show ?case by simp
next
  case (2 p s)
  then show ?case by (cases s) (auto split: if_splits)
next
  case (3 cs s)
  then show ?case by (cases s) (auto split: if_splits)
next
  case (4 a b s)
  from "4.prems" obtain t' where t': "t' \<in> set (rx_match a s)" "t \<in> set (rx_match b t')"
    by auto
  from "4.prems" have av: "avoids X a" "avoids X b" by simp_all
  from "4.IH"(1) [OF av(1) t'(1)] obtain m1 where m1: "s = m1 @ t'" "set m1 \<inter> set X = {}"
    by blast
  from "4.IH"(2) [OF t'(1) av(2) t'(2)] obtain m2 where m2: "t' = m2 @ t" "set m2 \<inter> set X = {}"
    by blast
  from m1 m2 have "s = (m1 @ m2) @ t \<and> set (m1 @ m2) \<inter> set X = {}" by auto
  then show ?case by blast
next
  case (5 a s)
  from "5.prems" consider "t \<in> set (rx_match a s)" | "t = s"
    by auto
  then show ?case
  proof cases
    case 1
    with 5 show ?thesis by simp
  next
    case 2
    then have "s = [] @ t \<and> set [] \<inter> set X = {}" by simp
    then show ?thesis by blast
  qed
next
  case (6 a s)
  from "6.prems"(2) consider t' where "t' \<in> set (rx_match a s)" "length t' < length s"
      "t \<in> set (rx_match (Star a) t')" | "t = s"
    unfolding rx_match_Star [of t a s] by blast
  then show ?case
  proof cases
    case 1
    from "6.prems" have av: "avoids X a" by simp
    from "6.IH"(1) [OF av 1(1)] obtain m1 where m1: "s = m1 @ t'" "set m1 \<inter> set X = {}"
      by blast
    from "6.IH"(2) [OF 1(1) 1(2) "6.prems"(1) 1(3)] obtain m2 where
      m2: "t' = m2 @ t" "set m2 \<inter> set X = {}"
      by blast
    from m1 m2 have "s = (m1 @ m2) @ t \<and> set (m1 @ m2) \<inter> set X = {}" by auto
    then show ?thesis by blast
  next
    case 2
    then have "s = [] @ t \<and> set [] \<inter> set X = {}" by simp
    then show ?thesis by blast
  qed
qed

subsection \<open>The pattern at the start of the URL\<close>

lemma canonicalize_values:
  "canonicalize 0x2E = 0x2E"
  "canonicalize 0x2F = 0x2F"
  "canonicalize 0x33 = 0x33"
  "canonicalize 0x38 = 0x38"
  "canonicalize 0x3A = 0x3A"
  "canonicalize 0x3F = 0x3F"
  "canonicalize 0x61 = 0x41"
  "canonicalize 0x63 = 0x43"
  "canonicalize 0x64 = 0x44"
  "canonicalize 0x65 = 0x45"
  "canonicalize 0x68 = 0x48"
  "canonicalize 0x69 = 0x49"
  "canonicalize 0x6C = 0x4C"
  "canonicalize 0x6D = 0x4D"
  "canonicalize 0x6F = 0x4F"
  "canonicalize 0x70 = 0x50"
  "canonicalize 0x72 = 0x52"
  "canonicalize 0x73 = 0x53"
  "canonicalize 0x74 = 0x54"
  "canonicalize 0x75 = 0x55"
  "canonicalize 0x76 = 0x56"
  "canonicalize 0x78 = 0x58"
  by (simp_all add: canonicalize_def)

lemma master_url_chars: "\<forall>c \<in> set master_url. c \<notin> set delimiters"
  by code_simp

lemma delimiter_not_literal:
  assumes "x \<in> set delimiters"
  shows "canonicalize x \<noteq> 0x2E" and "canonicalize x \<noteq> 0x3F"
proof -
  have "avoids delimiters (Seq (Chr 0x2E) (Chr 0x3F))" by code_simp
  with assms show "canonicalize x \<noteq> 0x2E" and "canonicalize x \<noteq> 0x3F"
    by (auto simp: canonicalize_values)
qed

lemma star_url_char_Cons:
  "rx_match (Star url_char) (c # s) =
     (if c \<in> set delimiters then [] else rx_match (Star url_char) s) @ [c # s]"
  by (subst rx_match.simps(6)) (simp add: url_char_def)

lemma star_url_char_Nil: "rx_match (Star url_char) [] = [[]]"
  by (subst rx_match.simps(6)) (simp add: url_char_def)

lemma url_char_Cons:
  "rx_match url_char (c # s) = (if c \<in> set delimiters then [] else [s])"
  by (simp add: url_char_def)

lemma first_match_master:
  assumes "post = [] \<or> hd post \<in> set delimiters"
  shows "rx_match m3u8_regex (master_url @ post) = [post]"
proof (cases post)
  case Nil
  have "rx_match m3u8_regex master_url = [[]]" by code_simp
  with Nil show ?thesis by simp
next
  case (Cons x post')
  with assms have x: "x \<in> set delimiters" by simp
  note nd = master_url_chars [unfolded master_url_def js_def, simplified]
  show ?thesis
    unfolding Cons master_url_def js_def m3u8_regex_def Plus_def
    by (simp add: star_url_char_Cons url_char_Cons nd x delimiter_not_literal [OF x]
          canonicalize_values)
qed

subsection \<open>The global search\<close>

lemma match_all_delimited:
  assumes av: "avoids X r" and first: "rx_match r (T @ post) = post # ts" and T: "T \<noteq> []"
  shows "pre = [] \<or> last pre \<in> set X \<Longrightarrow> T \<in> set (match_all r (pre @ T @ post))"
proof (induction "length pre" arbitrary: pre rule: less_induct)
  case less
  show ?case
  proof (cases pre)
    case Nil
    with first T show ?thesis by (subst match_all.simps) simp
  next
    case pre: (Cons c pre')
    with less.prems have lastX: "last pre \<in> set X" by simp
    have tail: "T \<in> set (match_all r (pre' @ T @ post))"
    proof -
      from lastX pre have "pre' = [] \<or> last pre' \<in> set X" by (auto split: if_splits)
      moreover from pre have "length pre' < length pre" by simp
      ultimately show ?thesis using less.hyps by blast
    qed
    show ?thesis
    proof (cases "rx_match r (pre @ T @ post)")
      case Nil
      with tail pre show ?thesis by (subst match_all.simps) simp
    next
      case (Cons t ts')
      show ?thesis
      proof (cases "length t < length (pre @ T @ post)")
        case False
        with tail pre Cons show ?thesis by (subst match_all.simps) simp
      next
        case True
        from Cons have "t \<in> set (rx_match r (pre @ T @ post))" by simp
        from rx_match_avoids [OF av this] obtain m where
          m: "pre @ T @ post = m @ t" "set m \<inter> set X = {}"
          by blast
        from pre lastX have inpre: "last pre \<in> set pre" by simp
        from m(1) obtain us where
          "(pre = m @ us \<and> us @ T @ post = t) \<or> (pre @ us = m \<and> T @ post = us @ t)"
          by (auto simp: append_eq_append_conv2)
        then have us: "pre = m @ us" "t = us @ T @ post"
          using m(2) lastX inpre by auto
        from us(1) m(2) lastX inpre have ne: "us \<noteq> []" by auto
        with us(1) lastX have "last us \<in> set X" by simp
        moreover from True m(1) have "m \<noteq> []" by auto
        with us(1) have "length us < length pre" by simp
        ultimately have "T \<in> set (match_all r (us @ T @ post))"
          using less.hyps by blast
        with True Cons us(2) show ?thesis by (subst match_all.simps) simp
      qed
    qed
  qed
qed

lemma fold_grows:
  assumes "\<And>x acc. set acc \<subseteq> set (f x acc)"
  shows "set acc \<subseteq> set (fold f xs acc)"
proof (induction xs arbitrary: acc)
  case Nil
  then show ?case by simp
next
  case (Cons x xs)
  from assms [of acc x] Cons [of "f x acc"] show ?case by auto
qed

lemma fold_reaches:
  assumes grows: "\<And>x acc. set acc \<subseteq> set (f x acc)"
    and x: "x \<in> set xs" and hit: "\<And>acc. l \<in> set (f x acc)"
  shows "l \<in> set (fold f xs acc)"
  using x
proof (induction xs arbitrary: acc)
  case Nil
  then show ?case by simp
next
  case (Cons y ys)
  show ?case
  proof (cases "x = y")
    case True
    from hit [of acc] True have "l \<in> set (f y acc)" by simp
    with fold_grows [of f "f y acc" ys, OF grows] show ?thesis by auto
  next
    case False
    with Cons show ?thesis by auto
  qed
qed

lemma scan_globals_grows: "set links \<subseteq> set (scan_globals pg links)"
  unfolding scan_globals_def
  by (rule fold_grows) (auto simp: set_fold_Set_add split: global.splits sum.splits option.splits)

lemma scan_attributes_grows: "set links \<subseteq> set (scan_attributes pg links)"
  unfolding scan_attributes_def
proof (rule fold_grows)
  fix el :: "(jsstring \<times> jsstring) list" and acc :: "jsstring list"
  show "set acc \<subseteq> set (fold (\<lambda>attr links.
                     case map_of el attr of
                       None \<Rightarrow> links
                     | Some v \<Rightarrow>
                         if v \<noteq> [] \<and> str_includes v dot_m3u8 then Set_add v links else links)
                  [js ''data-src'', js ''data-url'', js ''data-stream'', js ''data-file'', js ''src'']
                  acc)"
    by (rule fold_grows) (auto simp: set_Set_add split: option.splits)
qed

lemma scan_html_grows: "set links \<subseteq> set (scan_html pg links)"
  by (simp add: scan_html_def set_fold_Set_add)

lemma page_evaluate_scripts: "set (scan_scripts pg []) \<subseteq> set (page_evaluate pg)"
  unfolding page_evaluate_def
  using scan_globals_grows scan_attributes_grows scan_html_grows
  by (meson subset_trans)

text \<open>
  C8, as stated, fails when the string is part of a longer run of URL characters: the
  pattern is greedy, so with a query after it the scan yields the URL with its query,
  and inside another URL it yields that URL; the string itself is not added in either
  page.
\<close>

theorem script_text_recovers_counterexample:
  "str_includes query_script master_url
   \<and> scan_scripts (inline_script_page query_script) [] = [master_url @ js ''?x=1'']
   \<and> page_evaluate (inline_script_page query_script) = [master_url @ js ''?x=1'']
   \<and> master_url \<notin> set (page_evaluate (inline_script_page query_script))
   \<and> str_includes proxied_script master_url
   \<and> page_evaluate (inline_script_page proxied_script)
       = [js ''https://proxy.example.net/fetch?src='' @ master_url]
   \<and> master_url \<notin> set (page_evaluate (inline_script_page proxied_script))"
proof -
  have q: "str_includes query_script master_url" by code_simp
  have qs: "scan_scripts (inline_script_page query_script) [] = [master_url @ js ''?x=1'']"
    by code_simp
  have qe: "page_evaluate (inline_script_page query_script) = [master_url @ js ''?x=1'']"
    by code_simp
  have p: "str_includes proxied_script master_url" by code_simp
  have pe: "page_evaluate (inline_script_page proxied_script)
       = [js ''https://proxy.example.net/fetch?src='' @ master_url]"
    by code_simp
  have d: "master_url \<noteq> master_url @ js ''?x=1''"
      "master_url \<noteq> js ''https://proxy.example.net/fetch?src='' @ master_url"
    by (simp_all add: js_def)
  from q qs qe p pe d show ?thesis by simp
qed

text \<open>
  C8, amended. If \<^verbatim>\<open>https://example.com/video/master.m3u8\<close> stands in the text of a
  script between delimiters (before it the start of the text or a character the
  pattern's class excludes: white space, a quote, a bracket; after it such a character
  or the end of the text), then the script text scan adds it to the candidate set,
  whatever else the page holds, and it is among the candidates the in-page function
  returns.
\<close>

theorem script_text_recovers:
  assumes sc: "sc \<in> set (scripts pg)"
    and content: "textContent sc = pre @ js ''https://example.com/video/master.m3u8'' @ post"
    and pre: "pre = [] \<or> last pre \<in> set delimiters"
    and post: "post = [] \<or> hd post \<in> set delimiters"
  shows "js ''https://example.com/video/master.m3u8'' \<in> set (scan_scripts pg links)
       \<and> js ''https://example.com/video/master.m3u8'' \<in> set (page_evaluate pg)"
proof -
  have ne: "master_url \<noteq> []" by (simp add: master_url_def js_def)
  from first_match_master [OF post]
  have first: "rx_match m3u8_regex (master_url @ post) = post # []" by simp
  from match_all_delimited [OF avoids_regex first ne pre]
  have found: "master_url \<in> set (match_all m3u8_regex (textContent sc))"
    by (simp add: content master_url_def)
  from content ne have tne: "textContent sc \<noteq> []" by (simp add: master_url_def)
  have "master_url \<in> set (scan_scripts pg links)" for links
    unfolding scan_scripts_def
  proof (rule fold_reaches [OF _ sc])
    show "set acc \<subseteq> set (let content = if textContent x \<noteq> [] then textContent x
                            else if innerText x \<noteq> [] then innerText x else []
             in fold Set_add (match_all m3u8_regex content) acc)" for x acc
      by (simp add: Let_def set_fold_Set_add)
    show "master_url \<in> set (let content = if textContent sc \<noteq> [] then textContent sc
                            else if innerText sc \<noteq> [] then innerText sc else []
             in fold Set_add (match_all m3u8_regex content) acc)" for acc
      using found tne by (simp add: Let_def set_fold_Set_add)
  qed
  with page_evaluate_scripts [of pg] show ?thesis by (auto simp: master_url_def)
qed

text \<open>
  An instance: the URL as a string literal of a one-line script, between double quotes.
\<close>

theorem script_text_recovers_witness:
  "\<lparr>textContent = quoted_script, innerText = quoted_script\<rparr>
      \<in> set (scripts (inline_script_page quoted_script))
   \<and> quoted_script = (js ''var u = '' @ [0x22]) @ js ''https://example.com/video/master.m3u8''
       @ [0x22, 0x3B]
   \<and> last (js ''var u = '' @ [0x22]) \<in> set delimiters
   \<and> hd [0x22, 0x3B] \<in> set delimiters
   \<and> js ''https://example.com/video/master.m3u8''
       \<in> set (scan_scripts (inline_script_page quoted_script) [])
   \<and> js ''https://example.com/video/master.m3u8''
       \<in> set (page_evaluate (inline_script_page quoted_script))
   \<and> page_evaluate (inline_script_page quoted_script) = [master_url]"
proof -
  have sc: "\<lparr>textContent = quoted_script, innerText = quoted_script\<rparr>
      \<in> set (scripts (inline_script_page quoted_script))"
    by (simp add: inline_script_page_def)
  have content: "textContent \<lparr>textContent = quoted_script, innerText = quoted_script\<rparr>
      = (js ''var u = '' @ [0x22]) @ js ''https://example.com/video/master.m3u8'' @ [0x22, 0x3B]"
    by (simp add: quoted_script_def master_url_def)
  have pre: "last (js ''var u = '' @ [0x22]) \<in> set delimiters" by code_simp
  have post: "hd [0x22, 0x3B] \<in> set delimiters" by code_simp
  have all: "page_evaluate (inline_script_page quoted_script) = [master_url]" by code_simp
  have q: "quoted_script = (js ''var u = '' @ [0x22]) @ js ''https://example.com/video/master.m3u8''
       @ [0x22, 0x3B]"
    by (simp add: quoted_script_def master_url_def)
  from pre have pre': "js ''var u = '' @ [0x22] = [] \<or> last (js ''var u = '' @ [0x22]) \<in> set delimiters"
    by (rule disjI2)
  from post have post': "[0x22, 0x3B] = [] \<or> hd [0x22, 0x3B] \<in> set delimiters"
    by (rule disjI2)
  note r = script_text_recovers [OF sc content pre' post', of "[]"]
  from sc q pre post r all show ?thesis by blast
qed

end
